theory Spec2Isabelle
  imports Complex_Main "HOL-Library.List_Lexorder" "HOL-Library.Char_ord"
begin

section \<open>Data model\<close>

text \<open>
  The two application variants (\<^verbatim>\<open>pool.py\<close>, the Google Places build, and
  \<^verbatim>\<open>poolpreset.py\<close>, the presets build) share their data layer. The embedding follows
  the SQLite branch of every data-layer function: its SQL statements are in the source
  and have a fixed meaning. The Supabase branch delegates to a remote service (tables,
  row-level security and stored procedures that are not part of the repository), so it
  appears only where a function's behaviour does not depend on what the service computes.

  A naive \<^verbatim>\<open>datetime\<close> is a point on the local time line, counted in microseconds.
  The text columns \<^verbatim>\<open>when_iso\<close> and \<^verbatim>\<open>created_at\<close> stay strings, as in the tables;
  \<^verbatim>\<open>datetime.fromisoformat\<close>, \<^verbatim>\<open>datetime.isoformat\<close> and the f-string that makes a pool
  id are library code and are taken as parameters. \<open>fromisoformat L x = None\<close> stands for
  the call raising (every call site wraps it in \<^verbatim>\<open>try/except Exception\<close>).
  One invocation of a function reads the clock once: the instant \<open>now\<close>.
\<close>

type_synonym datetime = int

record lib =
  fromisoformat :: "string \<Rightarrow> datetime option"
  isoformat :: "datetime \<Rightarrow> string"
  pool_id_at :: "datetime \<Rightarrow> string"

definition COOLDOWN_MINUTES :: int where
  "COOLDOWN_MINUTES = 15"

definition SEATS_MIN :: int where
  "SEATS_MIN = 1"

definition SEATS_MAX :: int where
  "SEATS_MAX = 10"

definition timedelta_minutes :: "int \<Rightarrow> int" where
  "timedelta_minutes m = m * 60 * 1000000"

definition timedelta_seconds :: "int \<Rightarrow> int" where
  "timedelta_seconds n = n * 1000000"

text \<open>The row of table \<^verbatim>\<open>pools\<close> (column \<^verbatim>\<open>id\<close> is \<open>pid\<close>), of \<^verbatim>\<open>members\<close> and of
  \<^verbatim>\<open>messages\<close>. A table is the list of its rows in insertion order.\<close>

record pool =
  pid :: string
  destination_id :: string
  destination_name :: string
  lat :: "real option"
  lng :: "real option"
  when_iso :: string
  seats :: int
  mode :: string
  pool_notes :: string
  host_name :: string
  host_email :: string
  created_at :: string
  pickup :: string

record member =
  m_pool_id :: string
  m_name :: string
  m_email :: string

record message =
  msg_id :: string
  msg_pool_id :: string
  sender_email :: string
  sender_name :: string
  content :: string
  msg_created_at :: string

record store =
  pools :: "pool list"
  members :: "member list"
  messages :: "message list"

definition empty_store :: store where
  "empty_store = \<lparr>pools = [], members = [], messages = []\<rparr>"

datatype db_error = IntegrityError | OperationalError

section \<open>Spam guard\<close>

text \<open>
  \<^verbatim>\<open>can_host_create\<close>. On the SQLite branch the rows are the \<^verbatim>\<open>created_at\<close> values of
  the host's pools; a value that \<^verbatim>\<open>fromisoformat\<close> cannot read is skipped.
  \<open>can_host_create\<close> is the function on that branch with a database that opens and
  answers, which is what the handlers of \<^verbatim>\<open>create_pool_ui\<close> below call.
\<close>

fun created_scan :: "lib \<Rightarrow> datetime \<Rightarrow> string list \<Rightarrow> bool" where
  "created_scan L since [] = True"
| "created_scan L since (c # cs) =
     (case fromisoformat L c of
        None \<Rightarrow> created_scan L since cs
      | Some t \<Rightarrow> if t \<ge> since then False else created_scan L since cs)"

definition select_created_at :: "store \<Rightarrow> string \<Rightarrow> string list" where
  "select_created_at s email = map created_at (filter (\<lambda>p. host_email p = email) (pools s))"

definition can_host_create :: "lib \<Rightarrow> datetime \<Rightarrow> store \<Rightarrow> string \<Rightarrow> bool" where
  "can_host_create L now s email =
     (let since = now - timedelta_minutes COOLDOWN_MINUTES in
      created_scan L since (select_created_at s email))"

text \<open>
  The whole function, with its two branches and the ways its database calls fail. The
  result is \<open>Inr b\<close> when the function returns \<open>b\<close> and \<open>Inl e\<close> when it raises \<open>e\<close>.

  SQLite branch: \<^verbatim>\<open>with get_conn() as con:\<close> and \<^verbatim>\<open>cur = con.cursor()\<close> stand before the
  \<^verbatim>\<open>try\<close>, so an exception there (\<open>Connect_fault\<close>: the database file cannot be opened)
  leaves the function; an exception of \<^verbatim>\<open>cur.execute\<close> or \<^verbatim>\<open>fetchall\<close>
  (\<open>Execute_fault\<close>: no such table, database locked, file is not a database) is caught by
  the outer \<^verbatim>\<open>except Exception: return True\<close>.

  Supabase branch: the whole request chain is inside the \<^verbatim>\<open>try\<close>. The filtered query
  runs on the remote service, so its outcome is an input: \<open>Inl e\<close> when the chain raised,
  \<open>Inr data\<close> with the rows of \<^verbatim>\<open>res.data\<close> (id and \<^verbatim>\<open>created_at\<close>) otherwise.
\<close>

datatype db_fault = Connect_fault db_error | Execute_fault db_error

datatype backend =
    Supabase "db_error + (string \<times> string) list"
  | SQLite "db_fault option" store

definition can_host_create_backend :: "lib \<Rightarrow> datetime \<Rightarrow> backend \<Rightarrow> string \<Rightarrow> db_error + bool" where
  "can_host_create_backend L now b email =
     (case b of
        Supabase res \<Rightarrow>
          (case res of
             Inl e \<Rightarrow> Inr True
           | Inr data \<Rightarrow> Inr (\<not> (data \<noteq> [] \<and> length data > 0)))
      | SQLite fault s \<Rightarrow>
          (case fault of
             Some (Connect_fault e) \<Rightarrow> Inl e
           | Some (Execute_fault e) \<Rightarrow> Inr True
           | None \<Rightarrow> Inr (can_host_create L now s email)))"

section \<open>Core data-layer functions\<close>

text \<open>\<^verbatim>\<open>add_pool\<close>: the \<^verbatim>\<open>INSERT\<close> fails on a duplicate primary key and the connection's
  context manager rolls back; the host's row is added with \<^verbatim>\<open>INSERT OR IGNORE\<close> under
  \<^verbatim>\<open>UNIQUE(pool_id, email)\<close>.\<close>

definition is_user_member :: "store \<Rightarrow> string \<Rightarrow> string \<Rightarrow> bool" where
  "is_user_member s pool_id email =
     list_ex (\<lambda>m. m_pool_id m = pool_id \<and> m_email m = email) (members s)"

definition add_pool :: "store \<Rightarrow> pool \<Rightarrow> db_error + store" where
  "add_pool s p =
     (if list_ex (\<lambda>q. pid q = pid p) (pools s) then Inl IntegrityError
      else Inr (s\<lparr>pools := pools s @ [p],
                  members :=
                    (if is_user_member s (pid p) (host_email p) then members s
                     else members s @
                       [\<lparr>m_pool_id = pid p, m_name = host_name p, m_email = host_email p\<rparr>])\<rparr>))"

definition future_pool :: "lib \<Rightarrow> datetime \<Rightarrow> pool \<Rightarrow> bool" where
  "future_pool L now p =
     (case fromisoformat L (when_iso p) of None \<Rightarrow> False | Some t \<Rightarrow> t \<ge> now)"

definition list_future_pools :: "lib \<Rightarrow> datetime \<Rightarrow> store \<Rightarrow> (pool \<times> (string \<times> string) list) list" where
  "list_future_pools L now s =
     map (\<lambda>p. (p, map (\<lambda>m. (m_name m, m_email m))
                     (filter (\<lambda>m. m_pool_id m = pid p) (members s))))
         (filter (future_pool L now) (pools s))"

definition get_members_count :: "store \<Rightarrow> string \<Rightarrow> int" where
  "get_members_count s pool_id = int (length (filter (\<lambda>m. m_pool_id m = pool_id) (members s)))"

definition ride_passed :: "lib \<Rightarrow> datetime \<Rightarrow> string \<Rightarrow> bool" where
  "ride_passed L now w = (case fromisoformat L w of None \<Rightarrow> False | Some t \<Rightarrow> t < now)"

definition join_pool ::
  "lib \<Rightarrow> datetime \<Rightarrow> store \<Rightarrow> string \<Rightarrow> string \<Rightarrow> string \<Rightarrow> (bool \<times> string) \<times> store" where
  "join_pool L now s pool_id name email =
     (if is_user_member s pool_id email then ((True, ''Already joined''), s)
      else case find (\<lambda>p. pid p = pool_id) (pools s) of
        None \<Rightarrow> ((False, ''Pool not found''), s)
      | Some row \<Rightarrow>
          if ride_passed L now (when_iso row) then ((False, ''Ride time has passed''), s)
          else if get_members_count s pool_id \<ge> seats row then ((False, ''Pool is full''), s)
          else ((True, ''Joined''),
                s\<lparr>members := members s @
                     [\<lparr>m_pool_id = pool_id, m_name = name, m_email = email\<rparr>]\<rparr>))"

definition leave_pool :: "store \<Rightarrow> string \<Rightarrow> string \<Rightarrow> store" where
  "leave_pool s pool_id email =
     s\<lparr>members := filter (\<lambda>m. \<not> (m_pool_id m = pool_id \<and> m_email m = email)) (members s)\<rparr>"

text \<open>The two statements \<^verbatim>\<open>DELETE FROM members WHERE pool_id = ?\<close> and
  \<^verbatim>\<open>DELETE FROM pools WHERE id = ?\<close>, used in this order by \<^verbatim>\<open>delete_pool\<close> and by
  \<^verbatim>\<open>cleanup_expired_pools\<close>.\<close>

definition delete_members_of :: "store \<Rightarrow> string \<Rightarrow> store" where
  "delete_members_of s pool_id = s\<lparr>members := filter (\<lambda>m. m_pool_id m \<noteq> pool_id) (members s)\<rparr>"

definition delete_pool_row :: "store \<Rightarrow> string \<Rightarrow> store" where
  "delete_pool_row s pool_id = s\<lparr>pools := filter (\<lambda>p. pid p \<noteq> pool_id) (pools s)\<rparr>"

definition delete_pool :: "store \<Rightarrow> string \<Rightarrow> string \<Rightarrow> bool \<times> store" where
  "delete_pool s pool_id requester_email =
     (case find (\<lambda>p. pid p = pool_id) (pools s) of
        None \<Rightarrow> (False, s)
      | Some row \<Rightarrow>
          if host_email row \<noteq> requester_email then (False, s)
          else (True, delete_pool_row (delete_members_of s pool_id) pool_id))"

fun cleanup_loop :: "lib \<Rightarrow> datetime \<Rightarrow> (string \<times> string) list \<Rightarrow> store \<Rightarrow> store" where
  "cleanup_loop L now [] s = s"
| "cleanup_loop L now ((i, w) # rows) s =
     cleanup_loop L now rows
       (if ride_passed L now w then delete_pool_row (delete_members_of s i) i else s)"

definition cleanup_expired_pools :: "lib \<Rightarrow> datetime \<Rightarrow> store \<Rightarrow> store" where
  "cleanup_expired_pools L now s =
     cleanup_loop L now (map (\<lambda>p. (pid p, when_iso p)) (pools s)) s"

section \<open>Chat messages\<close>

text \<open>\<^verbatim>\<open>list_messages\<close> (\<^verbatim>\<open>poolpreset.py\<close>), SQLite branch:
  \<^verbatim>\<open>... WHERE pool_id = ? ORDER BY created_at ASC LIMIT ?\<close>. The column is text, compared
  as text; rows with equal keys keep table order; a negative \<^verbatim>\<open>LIMIT\<close> means no limit.\<close>

definition list_messages :: "store \<Rightarrow> string \<Rightarrow> int \<Rightarrow> message list" where
  "list_messages s pool_id limit =
     (let rows = sort_key msg_created_at (filter (\<lambda>m. msg_pool_id m = pool_id) (messages s))
      in if limit < 0 then rows else take (nat limit) rows)"

section \<open>String helpers of the user interface\<close>

text \<open>\<^verbatim>\<open>str.strip\<close>, \<^verbatim>\<open>str.lower\<close> and \<^verbatim>\<open>str.find(...) != -1\<close> on ASCII text, and
  \<^verbatim>\<open>_slug\<close> (\<^verbatim>\<open>re.sub(r"[^a-z0-9]+", "_", s.lower()).strip("_")\<close>).\<close>

definition isspace :: "char \<Rightarrow> bool" where
  "isspace c = (let n = (of_char c :: nat) in (9 \<le> n \<and> n \<le> 13) \<or> (28 \<le> n \<and> n \<le> 32))"

definition strip :: "string \<Rightarrow> string" where
  "strip x = rev (dropWhile isspace (rev (dropWhile isspace x)))"

definition lower_char :: "char \<Rightarrow> char" where
  "lower_char c =
     (if CHR ''A'' \<le> c \<and> c \<le> CHR ''Z'' then char_of (of_char c + (32::nat)) else c)"

definition lower :: "string \<Rightarrow> string" where
  "lower x = map lower_char x"

fun contains :: "string \<Rightarrow> string \<Rightarrow> bool" where
  "contains [] sub = (sub = [])"
| "contains (c # cs) sub = (take (length sub) (c # cs) = sub \<or> contains cs sub)"

definition slug_char :: "char \<Rightarrow> bool" where
  "slug_char c = ((CHR ''a'' \<le> c \<and> c \<le> CHR ''z'') \<or> (CHR ''0'' \<le> c \<and> c \<le> CHR ''9''))"

function re_sub_runs :: "string \<Rightarrow> string" where
  "re_sub_runs [] = []"
| "re_sub_runs (c # cs) =
     (if slug_char c then c # re_sub_runs cs
      else CHR ''_'' # re_sub_runs (dropWhile (\<lambda>d. \<not> slug_char d) cs))"
  by pat_completeness auto
termination
  by (relation "measure length") (auto simp: less_Suc_eq_le length_dropWhile_le)

definition slug :: "string \<Rightarrow> string" where
  "slug x = rev (dropWhile (\<lambda>c. c = CHR ''_'')
              (rev (dropWhile (\<lambda>c. c = CHR ''_'') (re_sub_runs (lower x)))))"

section \<open>Creating a pool\<close>

text \<open>What the widgets hand to the \<^verbatim>\<open>Create Pool\<close> button: the signed-in user, the chosen
  destination and the rest of the form. A handler run ends in \<^verbatim>\<open>st.error\<close>, in
  \<^verbatim>\<open>st.success\<close> or in the exception \<^verbatim>\<open>add_pool\<close> let through.\<close>

record user =
  u_name :: string
  u_email :: string

record dest =
  d_id :: "string option"
  d_name :: string
  d_lat :: "real option"
  d_lng :: "real option"
  d_addr :: string

record ride_form =
  when_dt :: datetime
  mode_sel :: string
  pickup_in :: string
  seats_in :: int
  notes_in :: string

datatype ui_result = St_error string | St_success string | Raised db_error

definition new_pool :: "lib \<Rightarrow> datetime \<Rightarrow> user \<Rightarrow> string \<Rightarrow> dest \<Rightarrow> ride_form \<Rightarrow> pool" where
  "new_pool L now u dest_id d f =
     \<lparr>pid = pool_id_at L now,
      destination_id = dest_id,
      destination_name = d_name d,
      lat = d_lat d,
      lng = d_lng d,
      when_iso = isoformat L (when_dt f),
      seats = seats_in f,
      mode = mode_sel f,
      pool_notes = strip (notes_in f),
      host_name = u_name u,
      host_email = u_email u,
      created_at = isoformat L now,
      pickup = strip (pickup_in f)\<rparr>"

definition commit_pool :: "store \<Rightarrow> pool \<Rightarrow> ui_result \<times> store" where
  "commit_pool s p =
     (case add_pool s p of
        Inl e \<Rightarrow> (Raised e, s)
      | Inr s' \<Rightarrow> (St_success ''Pool created!'', s'))"

text \<open>\<^verbatim>\<open>create_pool_ui\<close> of \<^verbatim>\<open>pool.py\<close> (destination from a Places search, or none).\<close>

definition create_pool_ui ::
  "lib \<Rightarrow> datetime \<Rightarrow> user \<Rightarrow> dest option \<Rightarrow> ride_form \<Rightarrow> store \<Rightarrow> ui_result \<times> store" where
  "create_pool_ui L now u dst f s =
     (case dst of
        None \<Rightarrow> (St_error ''Please search and select a destination.'', s)
      | Some d \<Rightarrow>
          if when_dt f < now then (St_error ''Please pick a future time.'', s)
          else if (contains (lower (d_name d)) ''airport'' \<or> contains (lower (d_addr d)) ''airport'')
                  \<and> strip (pickup_in f) = []
          then (St_error ''For airport rides, please enter a pickup point.'', s)
          else if \<not> can_host_create L now s (u_email u)
          then (St_error ''You can only create one pool every 15 minutes to prevent spam.'', s)
          else commit_pool s
                 (new_pool L now u
                    (case d_id d of None \<Rightarrow> d_name d | Some i \<Rightarrow> if i = [] then d_name d else i)
                    d f))"

text \<open>\<^verbatim>\<open>create_pool_ui\<close> of \<^verbatim>\<open>poolpreset.py\<close> (destination from the preset list, with
  coordinates \<^verbatim>\<open>0.0\<close>).\<close>

definition create_pool_ui_preset ::
  "lib \<Rightarrow> datetime \<Rightarrow> user \<Rightarrow> string \<Rightarrow> ride_form \<Rightarrow> store \<Rightarrow> ui_result \<times> store" where
  "create_pool_ui_preset L now u dest_name f s =
     (let d = \<lparr>d_id = Some (slug dest_name), d_name = dest_name,
               d_lat = Some 0, d_lng = Some 0, d_addr = []\<rparr> in
      if when_dt f < now then (St_error ''Please pick a future time.'', s)
      else if strip (pickup_in f) = []
      then (St_error ''Please select or enter a pickup point.'', s)
      else if \<not> can_host_create L now s (u_email u)
      then (St_error ''You can only create one pool every 15 minutes to prevent spam.'', s)
      else commit_pool s (new_pool L now u (slug dest_name) d f))"

section \<open>Listing pools\<close>

type_synonym listed = "pool \<times> (string \<times> string) list"

text \<open>The block under \<^verbatim>\<open># If focus from share, bring it to top\<close> (\<^verbatim>\<open>pool.py\<close>) and
  \<^verbatim>\<open># Bring shared pool to top\<close> (\<^verbatim>\<open>poolpreset.py\<close>); an empty token is falsy.\<close>

definition bring_to_top :: "string option \<Rightarrow> listed list \<Rightarrow> listed list" where
  "bring_to_top focus_id ps =
     (case focus_id of
        None \<Rightarrow> ps
      | Some i \<Rightarrow>
          if i = [] then ps
          else case find (\<lambda>q. pid (fst q) = i) ps of
            None \<Rightarrow> ps
          | Some focus_pool \<Rightarrow>
              focus_pool # filter (\<lambda>q. pid (fst q) \<noteq> pid (fst focus_pool)) ps)"

text \<open>\<^verbatim>\<open>pools_list_ui\<close> of \<^verbatim>\<open>poolpreset.py\<close> up to the list it renders: reaping, listing,
  the prune of a just-deleted pool, the two dropdown filters, the focus block, the sort.\<close>

definition pools_list_ui_preset ::
  "lib \<Rightarrow> datetime \<Rightarrow> string option \<Rightarrow> string option \<Rightarrow> string \<Rightarrow> string \<Rightarrow> store
     \<Rightarrow> listed list \<times> store" where
  "pools_list_ui_preset L now focus_id prune dest_choice pickup_choice s =
     (let s1 = cleanup_expired_pools L now s;
          ps0 = list_future_pools L now s1;
          ps1 = (case prune of
                   None \<Rightarrow> ps0
                 | Some d \<Rightarrow> if d = [] then ps0 else filter (\<lambda>q. pid (fst q) \<noteq> d) ps0);
          ps2 = (if dest_choice \<noteq> ''All destinations''
                 then filter (\<lambda>q. lower (strip (destination_name (fst q)))
                                     = lower (strip dest_choice)) ps1
                 else ps1);
          ps3 = (if pickup_choice \<noteq> ''Any pickup''
                 then filter (\<lambda>q. lower (strip (pickup (fst q)))
                                     = lower (strip pickup_choice)) ps2
                 else ps2);
          ps4 = bring_to_top focus_id ps3
      in (sort_key (\<lambda>q. when_iso (fst q)) ps4, s1))"

text \<open>\<^verbatim>\<open>pools_list_ui\<close> of \<^verbatim>\<open>pool.py\<close>: focus block, the optional \<open>\<plusminus>\<close>15 minute filter
  around \<open>target_dt\<close>, then the sort. With a search target the key is the distance
  \<^verbatim>\<open>haversine_km(target, ...)\<close>, a float computation taken here as the function
  \<open>distance_km\<close>; without one the key is \<^verbatim>\<open>when_iso\<close>. Every listed pool passed
  \<^verbatim>\<open>fromisoformat\<close> in \<^verbatim>\<open>list_future_pools\<close>, so the filter's own call does not raise.\<close>

definition within_window :: "lib \<Rightarrow> datetime \<Rightarrow> pool \<Rightarrow> bool" where
  "within_window L target_dt p =
     (case fromisoformat L (when_iso p) of
        None \<Rightarrow> False
      | Some t \<Rightarrow> \<bar>t - target_dt\<bar> \<le> timedelta_seconds 900)"

definition pools_list_ui ::
  "lib \<Rightarrow> datetime \<Rightarrow> string option \<Rightarrow> datetime option \<Rightarrow> (pool \<Rightarrow> 'd::linorder) option \<Rightarrow> store
     \<Rightarrow> listed list \<times> store" where
  "pools_list_ui L now focus_id target_dt distance_km s =
     (let s1 = cleanup_expired_pools L now s;
          ps0 = list_future_pools L now s1;
          ps1 = bring_to_top focus_id ps0;
          ps2 = (case target_dt of
                   None \<Rightarrow> ps1
                 | Some t \<Rightarrow> filter (\<lambda>q. within_window L t (fst q)) ps1)
      in (case distance_km of
            Some d \<Rightarrow> sort_key (\<lambda>q. d (fst q)) ps2
          | None \<Rightarrow> sort_key (\<lambda>q. when_iso (fst q)) ps2,
          s1))"

section \<open>Histories of operations\<close>

text \<open>A history is the list of data-layer calls made on a fresh database, each with the
  instant at which it ran where it reads the clock. A call that raises leaves the tables
  as they were.\<close>

datatype op =
    Add_pool pool
  | Join_pool datetime string string string
  | Leave_pool string string
  | Delete_pool string string
  | Cleanup datetime

fun step :: "lib \<Rightarrow> store \<Rightarrow> op \<Rightarrow> store" where
  "step L s (Add_pool p) = (case add_pool s p of Inl e \<Rightarrow> s | Inr s' \<Rightarrow> s')"
| "step L s (Join_pool now pool_id name email) = snd (join_pool L now s pool_id name email)"
| "step L s (Leave_pool pool_id email) = leave_pool s pool_id email"
| "step L s (Delete_pool pool_id email) = snd (delete_pool s pool_id email)"
| "step L s (Cleanup now) = cleanup_expired_pools L now s"

definition run :: "lib \<Rightarrow> op list \<Rightarrow> store" where
  "run L ops = foldl (step L) empty_store ops"

text \<open>\<open>host_left ops i e\<close>: the history contains a call \<^verbatim>\<open>leave_pool(i, e)\<close>.\<close>

fun is_leave :: "string \<Rightarrow> string \<Rightarrow> op \<Rightarrow> bool" where
  "is_leave i e (Leave_pool j f) = (j = i \<and> f = e)"
| "is_leave i e _ = False"

definition host_left :: "op list \<Rightarrow> string \<Rightarrow> string \<Rightarrow> bool" where
  "host_left ops i e = list_ex (is_leave i e) ops"

fun seats_ok :: "op \<Rightarrow> bool" where
  "seats_ok (Add_pool p) = (SEATS_MIN \<le> seats p \<and> seats p \<le> SEATS_MAX)"
| "seats_ok _ = True"

section \<open>Schema constraints and the capacity bound, as predicates on the tables\<close>

text \<open>\<^verbatim>\<open>id TEXT PRIMARY KEY\<close> on \<^verbatim>\<open>pools\<close>; \<^verbatim>\<open>UNIQUE(pool_id, email)\<close> on \<^verbatim>\<open>members\<close>;
  every membership row belongs to a stored pool; no pool holds more members than seats.\<close>

definition pool_ids_unique :: "store \<Rightarrow> bool" where
  "pool_ids_unique s = distinct (map pid (pools s))"

definition members_unique :: "store \<Rightarrow> bool" where
  "members_unique s = distinct (map (\<lambda>m. (m_pool_id m, m_email m)) (members s))"

definition members_ref :: "store \<Rightarrow> bool" where
  "members_ref s = list_all (\<lambda>m. list_ex (\<lambda>p. pid p = m_pool_id m) (pools s)) (members s)"

definition capacity_ok :: "store \<Rightarrow> bool" where
  "capacity_ok s = list_all (\<lambda>p. get_members_count s (pid p) \<le> seats p) (pools s)"

definition schema_ok :: "store \<Rightarrow> bool" where
  "schema_ok s = (pool_ids_unique s \<and> members_unique s \<and> members_ref s)"

text \<open>The host of a stored pool is one of its members, unless the history contains the
  host's own \<^verbatim>\<open>leave_pool\<close> for that pool.\<close>

definition host_kept :: "op list \<Rightarrow> store \<Rightarrow> bool" where
  "host_kept ops s =
     (\<forall>p\<in>set (pools s). \<not> host_left ops (pid p) (host_email p)
        \<longrightarrow> is_user_member s (pid p) (host_email p))"

section \<open>Sample data\<close>

text \<open>A finite excerpt of the two library functions, with instants counted from
  2030-01-01T00:00:00, and two users.\<close>

definition sample_lib :: lib where
  "sample_lib =
     \<lparr>fromisoformat = map_of
        [(''2030-01-01T09:00:00'', 32400000000),
         (''2030-01-01T10:00:00'', 36000000000),
         (''2030-01-01T11:00:00'', 39600000000)],
      isoformat = (\<lambda>t. if t = 32400000000 then ''2030-01-01T09:00:00''
                        else if t = 36000000000 then ''2030-01-01T10:00:00''
                        else if t = 39600000000 then ''2030-01-01T11:00:00''
                        else []),
      pool_id_at = (\<lambda>t. if t = 32400000000 then ''pool_1893488400000''
                         else if t = 36000000000 then ''pool_1893492000000''
                         else ''pool_1893495600000'')\<rparr>"

definition asha :: user where
  "asha = \<lparr>u_name = ''Asha'', u_email = ''asha@hyderabad.bits-pilani.ac.in''\<rparr>"

definition ravi :: user where
  "ravi = \<lparr>u_name = ''Ravi'', u_email = ''ravi@hyderabad.bits-pilani.ac.in''\<rparr>"

definition sample_pool :: "string \<Rightarrow> string \<Rightarrow> int \<Rightarrow> user \<Rightarrow> string \<Rightarrow> pool" where
  "sample_pool i w n u c =
     \<lparr>pid = i, destination_id = ''jbs'', destination_name = ''JBS'',
      lat = Some 0, lng = Some 0, when_iso = w, seats = n, mode = ''Cab'',
      pool_notes = [], host_name = u_name u, host_email = u_email u,
      created_at = c, pickup = ''BPHC Main Gate''\<rparr>"

definition sample_message :: "string \<Rightarrow> string \<Rightarrow> string \<Rightarrow> message" where
  "sample_message i c t =
     \<lparr>msg_id = i, msg_pool_id = ''p1'', sender_email = u_email asha, sender_name = u_name asha,
      content = t, msg_created_at = c\<rparr>"

definition pool_a :: pool where
  "pool_a = sample_pool ''p1'' ''2030-01-01T10:00:00'' 3 asha ''2030-01-01T09:00:00''"

definition pool_b :: pool where
  "pool_b = sample_pool ''p2'' ''2030-01-01T11:00:00'' 3 ravi ''2030-01-01T09:00:00''"

definition pool_single :: pool where
  "pool_single = sample_pool ''p1'' ''2030-01-01T10:00:00'' 1 asha ''2030-01-01T09:00:00''"

definition pool_early :: pool where
  "pool_early = sample_pool ''p0'' ''2030-01-01T09:00:00'' 3 ravi ''2030-01-01T09:00:00''"

definition sample_form :: "datetime \<Rightarrow> ride_form" where
  "sample_form t =
     \<lparr>when_dt = t, mode_sel = ''Cab'', pickup_in = ''BPHC Main Gate'', seats_in = 3,
      notes_in = []\<rparr>"

definition sample_dest :: dest where
  "sample_dest =
     \<lparr>d_id = Some ''ChIJ_jbs'', d_name = ''Jubilee Bus Station'', d_lat = Some 17.45,
      d_lng = Some 78.5, d_addr = ''Secunderabad''\<rparr>"

definition chat_store :: store where
  "chat_store =
     \<lparr>pools = [pool_a],
      members = [\<lparr>m_pool_id = ''p1'', m_name = u_name asha, m_email = u_email asha\<rparr>],
      messages =
        [sample_message ''m1'' ''2030-01-01T09:00:00'' ''first'',
         sample_message ''m2'' ''2030-01-01T10:00:00'' ''second'',
         sample_message ''m3'' ''2030-01-01T11:00:00'' ''third'']\<rparr>"

section \<open>Lemmas on the tables\<close>

text \<open>What each data-layer call does to the three tables, and the schema constraints and
  the capacity bound as invariants of every history.\<close>

lemma delete_rows_simps:
  "pools (delete_pool_row (delete_members_of s i) i) = filter (\<lambda>p. pid p \<noteq> i) (pools s)"
  "members (delete_pool_row (delete_members_of s i) i) = filter (\<lambda>m. m_pool_id m \<noteq> i) (members s)"
  "messages (delete_pool_row (delete_members_of s i) i) = messages s"
  by (simp_all add: delete_pool_row_def delete_members_of_def)

lemma find_pid_Some: "find (\<lambda>p. pid p = i) ps = Some row \<Longrightarrow> row \<in> set ps \<and> pid row = i"
  by (induction ps) (auto split: if_splits)

lemma find_pid_None: "find (\<lambda>p. pid p = i) ps = None \<longleftrightarrow> (\<forall>p\<in>set ps. pid p \<noteq> i)"
  by (induction ps) auto

lemma find_pid_unique:
  "distinct (map pid ps) \<Longrightarrow> p \<in> set ps \<Longrightarrow> find (\<lambda>q. pid q = pid p) ps = Some p"
  by (induction ps) (auto simp: image_iff)


lemma members_ref_iff:
  "members_ref s \<longleftrightarrow> (\<forall>m\<in>set (members s). \<exists>p\<in>set (pools s). pid p = m_pool_id m)"
  by (simp add: members_ref_def list_all_iff list_ex_iff)

lemma capacity_ok_iff:
  "capacity_ok s \<longleftrightarrow> (\<forall>p\<in>set (pools s). get_members_count s (pid p) \<le> seats p)"
  by (simp add: capacity_ok_def list_all_iff)

lemma is_user_member_iff:
  "is_user_member s i e \<longleftrightarrow> (i, e) \<in> set (map (\<lambda>m. (m_pool_id m, m_email m)) (members s))"
  by (auto simp: is_user_member_def list_ex_iff image_iff)

lemma schema_ok_delete_rows:
  assumes "schema_ok s"
  shows "schema_ok (delete_pool_row (delete_members_of s i) i)"
proof -
  let ?t = "delete_pool_row (delete_members_of s i) i"
  have "pool_ids_unique ?t"
    using assms by (simp add: schema_ok_def pool_ids_unique_def delete_rows_simps distinct_map_filter)
  moreover have "members_unique ?t"
    using assms by (simp add: schema_ok_def members_unique_def delete_rows_simps distinct_map_filter)
  moreover have "members_ref ?t"
    using assms unfolding schema_ok_def members_ref_iff
    by (simp add: delete_rows_simps) metis
  ultimately show ?thesis by (simp add: schema_ok_def)
qed

lemma count_delete_other:
  "j \<noteq> i \<Longrightarrow> get_members_count (delete_pool_row (delete_members_of s i) i) j = get_members_count s j"
proof -
  assume "j \<noteq> i"
  then have "filter (\<lambda>m. m_pool_id m = j) (filter (\<lambda>m. m_pool_id m \<noteq> i) (members s))
           = filter (\<lambda>m. m_pool_id m = j) (members s)"
    by (auto intro: filter_cong)
  then show ?thesis by (simp add: get_members_count_def delete_rows_simps)
qed

lemma capacity_ok_delete_rows:
  "capacity_ok s \<Longrightarrow> capacity_ok (delete_pool_row (delete_members_of s i) i)"
  unfolding capacity_ok_iff
  by (auto simp: delete_rows_simps(1) count_delete_other)

lemma schema_ok_cleanup_loop:
  "schema_ok s \<Longrightarrow> schema_ok (cleanup_loop L now rows s)"
  by (induction rows arbitrary: s) (auto simp: schema_ok_delete_rows)

lemma capacity_ok_cleanup_loop:
  "capacity_ok s \<Longrightarrow> capacity_ok (cleanup_loop L now rows s)"
  by (induction rows arbitrary: s) (auto simp: capacity_ok_delete_rows)

lemma schema_ok_add_pool:
  assumes "schema_ok s" "add_pool s p = Inr s'"
  shows "schema_ok s'"
proof -
  from assms(2) have fresh: "\<forall>q\<in>set (pools s). pid q \<noteq> pid p"
    by (auto simp: add_pool_def list_ex_iff split: if_splits)
  from assms(2) have P: "pools s' = pools s @ [p]"
    by (auto simp: add_pool_def split: if_splits)
  from assms(1) fresh have nomem: "\<not> is_user_member s (pid p) (host_email p)"
    unfolding schema_ok_def members_ref_iff is_user_member_def list_ex_iff by metis
  with assms(2) have M: "members s' = members s @
      [\<lparr>m_pool_id = pid p, m_name = host_name p, m_email = host_email p\<rparr>]"
    by (auto simp: add_pool_def split: if_splits)
  have "pool_ids_unique s'"
    using assms(1) fresh by (auto simp: schema_ok_def pool_ids_unique_def P)
  moreover have "members_unique s'"
    using assms(1) nomem by (auto simp: schema_ok_def members_unique_def M is_user_member_iff)
  moreover have "members_ref s'"
    using assms(1) unfolding schema_ok_def members_ref_iff by (auto simp: P M)
  ultimately show ?thesis by (simp add: schema_ok_def)
qed

lemma count_zero_fresh:
  assumes "members_ref s" "\<forall>q\<in>set (pools s). pid q \<noteq> i"
  shows "get_members_count s i = 0"
proof -
  have "filter (\<lambda>m. m_pool_id m = i) (members s) = []"
    using assms unfolding members_ref_iff by (auto simp: filter_empty_conv)
  then show ?thesis by (simp add: get_members_count_def)
qed

lemma add_pool_Inr:
  assumes "members_ref s" "add_pool s p = Inr s'"
  shows "pools s' = pools s @ [p]"
    and "members s' = members s @ [\<lparr>m_pool_id = pid p, m_name = host_name p, m_email = host_email p\<rparr>]"
    and "messages s' = messages s"
    and "\<forall>q\<in>set (pools s). pid q \<noteq> pid p"
proof -
  from assms(2) show fresh: "\<forall>q\<in>set (pools s). pid q \<noteq> pid p"
    by (auto simp: add_pool_def list_ex_iff split: if_splits)
  from assms(2) show "pools s' = pools s @ [p]" "messages s' = messages s"
    by (auto simp: add_pool_def split: if_splits)
  from assms(1) fresh have "\<not> is_user_member s (pid p) (host_email p)"
    unfolding members_ref_iff is_user_member_def list_ex_iff by metis
  with assms(2) show "members s' = members s @
      [\<lparr>m_pool_id = pid p, m_name = host_name p, m_email = host_email p\<rparr>]"
    by (auto simp: add_pool_def split: if_splits)
qed

lemma add_pool_count:
  assumes "members_ref s" "add_pool s p = Inr s'"
  shows "get_members_count s' j = (if j = pid p then 1 else get_members_count s j)"
  using add_pool_Inr[OF assms] count_zero_fresh[OF assms(1), of "pid p"]
  by (auto simp: get_members_count_def)

lemma capacity_ok_add_pool:
  assumes "schema_ok s" "capacity_ok s" "add_pool s p = Inr s'" "1 \<le> seats p"
  shows "capacity_ok s'"
proof -
  have R: "members_ref s" using assms(1) by (simp add: schema_ok_def)
  show ?thesis
    using assms(2,4) add_pool_Inr(1,4)[OF R assms(3)]
    unfolding capacity_ok_iff by (auto simp: add_pool_count[OF R assms(3)])
qed

lemma join_pool_state:
  "snd (join_pool L now s i n e) = s \<or>
   (\<not> is_user_member s i e \<and>
    (\<exists>row. find (\<lambda>p. pid p = i) (pools s) = Some row \<and> get_members_count s i < seats row) \<and>
    snd (join_pool L now s i n e) = s\<lparr>members := members s @ [\<lparr>m_pool_id = i, m_name = n, m_email = e\<rparr>]\<rparr>)"
  by (auto simp: join_pool_def split: option.splits)

lemma schema_ok_join_pool:
  assumes "schema_ok s"
  shows "schema_ok (snd (join_pool L now s i n e))"
proof -
  let ?t = "s\<lparr>members := members s @ [\<lparr>m_pool_id = i, m_name = n, m_email = e\<rparr>]\<rparr>"
  have "schema_ok ?t"
    if nm: "\<not> is_user_member s i e" and f: "find (\<lambda>p. pid p = i) (pools s) = Some row" for row
  proof -
    have "pool_ids_unique ?t" using assms by (simp add: schema_ok_def pool_ids_unique_def)
    moreover have "members_unique ?t"
      using assms nm by (auto simp: schema_ok_def members_unique_def is_user_member_iff)
    moreover have "members_ref ?t"
      using assms find_pid_Some[OF f] unfolding schema_ok_def members_ref_iff by auto
    ultimately show ?thesis by (simp add: schema_ok_def)
  qed
  then show ?thesis using assms join_pool_state[of L now s i n e] by auto
qed

lemma capacity_ok_join_pool:
  assumes "schema_ok s" "capacity_ok s"
  shows "capacity_ok (snd (join_pool L now s i n e))"
proof -
  let ?t = "s\<lparr>members := members s @ [\<lparr>m_pool_id = i, m_name = n, m_email = e\<rparr>]\<rparr>"
  have "capacity_ok ?t"
    if f: "find (\<lambda>p. pid p = i) (pools s) = Some row" and c: "get_members_count s i < seats row" for row
    unfolding capacity_ok_iff
  proof
    fix p assume p: "p \<in> set (pools ?t)"
    then have p': "p \<in> set (pools s)" by simp
    show "get_members_count ?t (pid p) \<le> seats p"
    proof (cases "pid p = i")
      case True
      have "distinct (map pid (pools s))" using assms(1) by (simp add: schema_ok_def pool_ids_unique_def)
      from find_pid_unique[OF this p'] True f have "p = row" by simp
      with c True show ?thesis by (simp add: get_members_count_def)
    next
      case False
      with assms(2) p' show ?thesis by (auto simp: capacity_ok_iff get_members_count_def)
    qed
  qed
  then show ?thesis using assms(2) join_pool_state[of L now s i n e] by auto
qed

lemma schema_ok_leave_pool: "schema_ok s \<Longrightarrow> schema_ok (leave_pool s i e)"
  unfolding schema_ok_def pool_ids_unique_def members_unique_def members_ref_iff
  by (auto simp: leave_pool_def distinct_map_filter)

lemma count_leave_le: "get_members_count (leave_pool s i e) j \<le> get_members_count s j"
proof -
  have "filter (\<lambda>m. m_pool_id m = j) (filter (\<lambda>m. \<not> (m_pool_id m = i \<and> m_email m = e)) (members s))
      = filter (\<lambda>m. \<not> (m_pool_id m = i \<and> m_email m = e)) (filter (\<lambda>m. m_pool_id m = j) (members s))"
    by (simp add: conj_commute)
  then show ?thesis
    by (simp add: get_members_count_def leave_pool_def del: filter_filter)
qed

lemma capacity_ok_leave_pool: "capacity_ok s \<Longrightarrow> capacity_ok (leave_pool s i e)"
  unfolding capacity_ok_iff
proof
  fix p assume a: "\<forall>p\<in>set (pools s). get_members_count s (pid p) \<le> seats p"
    and p: "p \<in> set (pools (leave_pool s i e))"
  then have "get_members_count s (pid p) \<le> seats p" by (simp add: leave_pool_def)
  with count_leave_le[of s i e "pid p"] show "get_members_count (leave_pool s i e) (pid p) \<le> seats p"
    by linarith
qed

lemma delete_pool_state:
  "snd (delete_pool s i e) = s \<or> snd (delete_pool s i e) = delete_pool_row (delete_members_of s i) i"
  by (auto simp: delete_pool_def split: option.splits)

lemma schema_ok_delete_pool: "schema_ok s \<Longrightarrow> schema_ok (snd (delete_pool s i e))"
  using delete_pool_state[of s i e] schema_ok_delete_rows[of s i] by auto

lemma capacity_ok_delete_pool: "capacity_ok s \<Longrightarrow> capacity_ok (snd (delete_pool s i e))"
  using delete_pool_state[of s i e] capacity_ok_delete_rows[of s i] by auto

lemma schema_ok_step: "schema_ok s \<Longrightarrow> schema_ok (step L s x)"
  by (cases x)
     (auto simp: schema_ok_add_pool schema_ok_join_pool schema_ok_leave_pool schema_ok_delete_pool
        schema_ok_cleanup_loop cleanup_expired_pools_def split: sum.splits)

lemma capacity_ok_step:
  "schema_ok s \<Longrightarrow> capacity_ok s \<Longrightarrow> seats_ok x \<Longrightarrow> capacity_ok (step L s x)"
  by (cases x)
     (auto simp: capacity_ok_add_pool capacity_ok_join_pool capacity_ok_leave_pool
        capacity_ok_delete_pool capacity_ok_cleanup_loop cleanup_expired_pools_def SEATS_MIN_def
        split: sum.splits)

lemma schema_ok_empty: "schema_ok empty_store"
  by (simp add: schema_ok_def pool_ids_unique_def members_unique_def members_ref_def empty_store_def)

lemma capacity_ok_empty: "capacity_ok empty_store"
  by (simp add: capacity_ok_def empty_store_def)

lemma schema_ok_run: "schema_ok (run L ops)"
  unfolding run_def by (induction ops rule: rev_induct) (auto simp: schema_ok_empty schema_ok_step)

lemma capacity_ok_run: "list_all seats_ok ops \<Longrightarrow> capacity_ok (run L ops)"
  unfolding run_def
  by (induction ops rule: rev_induct)
     (auto simp: capacity_ok_empty capacity_ok_step schema_ok_run[unfolded run_def])

lemma cleanup_loop_pools:
  "pools (cleanup_loop L now rows s) =
     filter (\<lambda>p. \<not> (\<exists>w. (pid p, w) \<in> set rows \<and> ride_passed L now w)) (pools s)"
proof (induction rows arbitrary: s)
  case Nil
  then show ?case by simp
next
  case (Cons r rows)
  obtain i w where r: "r = (i, w)" by (cases r)
  show ?case
    unfolding r by (auto simp: Cons.IH delete_rows_simps intro: filter_cong)
qed

lemma cleanup_loop_members:
  "members (cleanup_loop L now rows s) =
     filter (\<lambda>m. \<not> (\<exists>w. (m_pool_id m, w) \<in> set rows \<and> ride_passed L now w)) (members s)"
proof (induction rows arbitrary: s)
  case Nil
  then show ?case by simp
next
  case (Cons r rows)
  obtain i w where r: "r = (i, w)" by (cases r)
  show ?case
    unfolding r by (auto simp: Cons.IH delete_rows_simps intro: filter_cong)
qed

lemma cleanup_loop_messages: "messages (cleanup_loop L now rows s) = messages s"
  by (induction rows arbitrary: s) (auto simp: delete_rows_simps)

lemma cleanup_loop_noop:
  "\<forall>r\<in>set rows. \<not> ride_passed L now (snd r) \<Longrightarrow> cleanup_loop L now rows s = s"
  by (induction rows arbitrary: s) auto

lemma cleanup_pools:
  assumes "pool_ids_unique s"
  shows "pools (cleanup_expired_pools L now s) =
           filter (\<lambda>p. \<not> ride_passed L now (when_iso p)) (pools s)"
proof -
  have inj: "inj_on pid (set (pools s))"
    using assms by (simp add: pool_ids_unique_def distinct_map)
  have "(\<exists>w. (pid p, w) \<in> set (map (\<lambda>p. (pid p, when_iso p)) (pools s)) \<and> ride_passed L now w)
          = ride_passed L now (when_iso p)" if "p \<in> set (pools s)" for p
    using that inj by (auto simp: image_iff dest: inj_onD)
  then show ?thesis
    unfolding cleanup_expired_pools_def cleanup_loop_pools by (auto intro: filter_cong)
qed

lemma cleanup_members:
  "members (cleanup_expired_pools L now s) =
     filter (\<lambda>m. \<not> list_ex (\<lambda>p. pid p = m_pool_id m \<and> ride_passed L now (when_iso p)) (pools s))
       (members s)"
proof -
  have e: "(\<exists>w. (m_pool_id m, w) \<in> set (map (\<lambda>p. (pid p, when_iso p)) (pools s)) \<and> ride_passed L now w)
      = list_ex (\<lambda>p. pid p = m_pool_id m \<and> ride_passed L now (when_iso p)) (pools s)" for m
    unfolding list_ex_iff by (force simp: image_iff)
  show ?thesis
    by (simp only: cleanup_expired_pools_def cleanup_loop_members e)
qed

lemma cleanup_idem:
  assumes "pool_ids_unique s"
  shows "cleanup_expired_pools L now (cleanup_expired_pools L now s) = cleanup_expired_pools L now s"
proof -
  let ?t = "cleanup_expired_pools L now s"
  have "\<forall>r\<in>set (map (\<lambda>p. (pid p, when_iso p)) (pools ?t)). \<not> ride_passed L now (snd r)"
    by (auto simp: cleanup_pools[OF assms])
  then show ?thesis
    unfolding cleanup_expired_pools_def[of L now ?t] by (rule cleanup_loop_noop)
qed

lemma distinct_key_filter:
  "distinct (map f xs) \<Longrightarrow> length (filter (\<lambda>x. f x = k) xs) \<le> 1"
proof (induction xs)
  case Nil
  then show ?case by simp
next
  case (Cons x xs)
  show ?case
  proof (cases "f x = k")
    case True
    with Cons.prems have "filter (\<lambda>y. f y = k) xs = []"
      by (auto simp: filter_empty_conv image_iff)
    with True show ?thesis by simp
  next
    case False
    with Cons show ?thesis by simp
  qed
qed

lemma listed_pools_readable:
  "q \<in> set (bring_to_top focus_id (list_future_pools L now s))
     \<Longrightarrow> \<exists>t. fromisoformat L (when_iso (fst q)) = Some t \<and> t \<ge> now"
proof -
  assume q: "q \<in> set (bring_to_top focus_id (list_future_pools L now s))"
  have sub: "set (bring_to_top focus_id ps) \<subseteq> set ps" for ps :: "listed list"
    by (auto simp: bring_to_top_def split: option.splits dest: find_Some_iff[THEN iffD1]
          intro: nth_mem)
  from q sub have "q \<in> set (list_future_pools L now s)" by blast
  then have "future_pool L now (fst q)"
    by (auto simp: list_future_pools_def)
  then show ?thesis
    by (auto simp: future_pool_def split: option.splits)
qed

lemma created_scan_iff:
  "created_scan L since cs = (\<forall>c\<in>set cs. \<forall>t. fromisoformat L c = Some t \<longrightarrow> t < since)"
  by (induction cs) (auto split: option.splits)

lemma can_host_create_iff:
  "can_host_create L now s email =
     (\<forall>p\<in>set (pools s). host_email p = email \<longrightarrow>
        (\<forall>t. fromisoformat L (created_at p) = Some t \<longrightarrow> t < now - timedelta_minutes COOLDOWN_MINUTES))"
  by (auto simp: can_host_create_def Let_def select_created_at_def created_scan_iff)

lemma add_pool_pools: "add_pool s p = Inr s' \<Longrightarrow> pools s' = pools s @ [p]"
  by (auto simp: add_pool_def split: if_splits)

lemma is_user_member_set:
  "is_user_member s i e = (\<exists>m\<in>set (members s). m_pool_id m = i \<and> m_email m = e)"
  by (simp add: is_user_member_def list_ex_iff)

lemma add_pool_members_mono: "add_pool s p = Inr s' \<Longrightarrow> set (members s) \<subseteq> set (members s')"
  by (auto simp: add_pool_def split: if_splits)

lemma add_pool_host_member: "add_pool s p = Inr s' \<Longrightarrow> is_user_member s' (pid p) (host_email p)"
  by (auto simp: add_pool_def is_user_member_def split: if_splits)

lemma member_count_pos: "is_user_member s i e \<Longrightarrow> 1 \<le> get_members_count s i"
proof -
  assume "is_user_member s i e"
  then have "filter (\<lambda>m. m_pool_id m = i) (members s) \<noteq> []"
    by (auto simp: is_user_member_set filter_empty_conv)
  then have "0 < length (filter (\<lambda>m. m_pool_id m = i) (members s))"
    by (cases "filter (\<lambda>m. m_pool_id m = i) (members s)") simp_all
  then have "1 \<le> int (length (filter (\<lambda>m. m_pool_id m = i) (members s)))"
    by linarith
  then show ?thesis by (simp only: get_members_count_def)
qed

lemma host_left_snoc: "host_left (ops @ [x]) i e = (host_left ops i e \<or> is_leave i e x)"
  by (simp add: host_left_def)

lemma host_kept_step:
  assumes "host_kept ops s"
  shows "host_kept (ops @ [x]) (step L s x)"
proof (cases x)
  case (Add_pool q)
  show ?thesis
  proof (cases "add_pool s q")
    case (Inl e)
    with assms Add_pool show ?thesis by (simp add: host_kept_def host_left_snoc)
  next
    case (Inr s')
    have "is_user_member s' (pid p) (host_email p)"
      if "p \<in> set (pools s')" "\<not> host_left ops (pid p) (host_email p)" for p
    proof (cases "p \<in> set (pools s)")
      case True
      with assms that(2) have "is_user_member s (pid p) (host_email p)"
        by (simp add: host_kept_def)
      with add_pool_members_mono[OF Inr] show ?thesis
        unfolding is_user_member_set by blast
    next
      case False
      with that(1) add_pool_pools[OF Inr] have "p = q" by simp
      with add_pool_host_member[OF Inr] show ?thesis by simp
    qed
    with Add_pool Inr show ?thesis by (simp add: host_kept_def host_left_snoc)
  qed
next
  case (Join_pool now i n e)
  have P: "pools (snd (join_pool L now s i n e)) = pools s"
    and M: "set (members s) \<subseteq> set (members (snd (join_pool L now s i n e)))"
    using join_pool_state[of L now s i n e] by auto
  have "is_user_member (snd (join_pool L now s i n e)) (pid p) (host_email p)"
    if "p \<in> set (pools s)" "\<not> host_left ops (pid p) (host_email p)" for p
  proof -
    from assms that have "is_user_member s (pid p) (host_email p)" by (simp add: host_kept_def)
    with M show ?thesis unfolding is_user_member_set by blast
  qed
  with Join_pool P show ?thesis by (simp add: host_kept_def host_left_snoc)
next
  case (Leave_pool i e)
  have "is_user_member (leave_pool s i e) (pid p) (host_email p)"
    if "p \<in> set (pools s)" "\<not> host_left ops (pid p) (host_email p)"
      "\<not> (i = pid p \<and> e = host_email p)" for p
  proof -
    from assms that(1,2) have "is_user_member s (pid p) (host_email p)" by (simp add: host_kept_def)
    with that(3) show ?thesis
      unfolding is_user_member_set by (auto simp: leave_pool_def)
  qed
  with Leave_pool show ?thesis
    by (auto simp: host_kept_def host_left_snoc leave_pool_def)
next
  case (Delete_pool i e)
  have "is_user_member (delete_pool_row (delete_members_of s i) i) (pid p) (host_email p)"
    if p: "p \<in> set (pools s)" "pid p \<noteq> i" and l: "\<not> host_left ops (pid p) (host_email p)" for p
  proof -
    from assms p(1) l obtain m where m: "m \<in> set (members s)" "m_pool_id m = pid p"
        "m_email m = host_email p"
      unfolding host_kept_def is_user_member_set by blast
    from m(1,2) p(2) have "m \<in> set (members (delete_pool_row (delete_members_of s i) i))"
      by (simp add: delete_rows_simps)
    with m(2,3) show ?thesis unfolding is_user_member_set by blast
  qed
  then have D: "host_kept ops (delete_pool_row (delete_members_of s i) i)"
    by (simp add: host_kept_def delete_rows_simps)
  from delete_pool_state[of s i e] D assms Delete_pool show ?thesis
    by (auto simp: host_kept_def host_left_snoc)
next
  case (Cleanup now)
  let ?rows = "map (\<lambda>p. (pid p, when_iso p)) (pools s)"
  have "is_user_member (cleanup_loop L now ?rows s) (pid p) (host_email p)"
    if p: "p \<in> set (pools (cleanup_loop L now ?rows s))"
      and l: "\<not> host_left ops (pid p) (host_email p)" for p
  proof -
    from p have ps: "p \<in> set (pools s)"
      and k: "\<not> (\<exists>w. (pid p, w) \<in> set ?rows \<and> ride_passed L now w)"
      by (simp_all add: cleanup_loop_pools)
    from assms ps l obtain m where m: "m \<in> set (members s)" "m_pool_id m = pid p"
        "m_email m = host_email p"
      unfolding host_kept_def is_user_member_set by blast
    from m(1,2) k have "m \<in> set (members (cleanup_loop L now ?rows s))"
      by (simp add: cleanup_loop_members)
    with m(2,3) show ?thesis unfolding is_user_member_set by blast
  qed
  with Cleanup show ?thesis
    by (simp add: host_kept_def host_left_snoc cleanup_expired_pools_def)
qed

lemma host_kept_run: "host_kept ops (run L ops)"
proof (induction ops rule: rev_induct)
  case Nil
  show ?case by (simp add: host_kept_def run_def empty_store_def)
next
  case (snoc x ops)
  from host_kept_step[OF snoc, of x L] show ?case by (simp add: run_def)
qed

section \<open>Evaluating the sample data\<close>

lemmas sample_defs = sample_lib_def sample_pool_def asha_def ravi_def pool_a_def pool_b_def
  pool_single_def pool_early_def sample_form_def sample_dest_def chat_store_def sample_message_def

lemmas table_defs = run_def empty_store_def add_pool_def join_pool_def is_user_member_def
  get_members_count_def ride_passed_def leave_pool_def delete_pool_def delete_pool_row_def
  delete_members_of_def cleanup_expired_pools_def future_pool_def list_future_pools_def

lemma run_host_leaves:
  "run sample_lib [Add_pool pool_a, Leave_pool ''p1'' (u_email asha)]
     = \<lparr>pools = [pool_a], members = [], messages = []\<rparr>"
  by (simp add: table_defs sample_defs)

lemma run_single:
  "run sample_lib [Add_pool pool_single]
     = \<lparr>pools = [pool_single],
        members = [\<lparr>m_pool_id = ''p1'', m_name = ''Asha'', m_email = u_email asha\<rparr>],
        messages = []\<rparr>"
  by (simp add: table_defs sample_defs)

lemma run_two:
  "run sample_lib [Add_pool pool_early, Add_pool pool_a,
       Join_pool 32400000000 ''p1'' (u_name ravi) (u_email ravi)]
     = \<lparr>pools = [pool_early, pool_a],
        members = [\<lparr>m_pool_id = ''p0'', m_name = ''Ravi'', m_email = u_email ravi\<rparr>,
                   \<lparr>m_pool_id = ''p1'', m_name = ''Asha'', m_email = u_email asha\<rparr>,
                   \<lparr>m_pool_id = ''p1'', m_name = ''Ravi'', m_email = u_email ravi\<rparr>],
        messages = []\<rparr>"
  by (simp add: table_defs sample_defs)

section \<open>The claims\<close>

subsection \<open>C1: the membership count of a stored pool\<close>

text \<open>
  C1 as stated (\<open>1 \<le> member_count \<le> seat_capacity\<close> for every stored pool, whatever
  joins and leaves happen) fails at its lower bound: \<^verbatim>\<open>leave_pool\<close> deletes the row of
  whoever asks, the host included. After the host creates pool \<^verbatim>\<open>p1\<close> with three seats
  and leaves it, the pool is still stored and has no member.
\<close>

theorem member_count_zero_after_host_leaves:
  "list_all seats_ok [Add_pool pool_a, Leave_pool ''p1'' (u_email asha)]
   \<and> map pid (pools (run sample_lib [Add_pool pool_a, Leave_pool ''p1'' (u_email asha)])) = [''p1'']
   \<and> get_members_count (run sample_lib [Add_pool pool_a, Leave_pool ''p1'' (u_email asha)]) ''p1'' = 0"
  by (simp add: run_host_leaves)
     (simp add: sample_defs SEATS_MIN_def SEATS_MAX_def get_members_count_def)

text \<open>
  C1, amended: in every history whose creations ask for between 1 and 10 seats, each
  stored pool has at most as many members as seats; it has at least one member, its host
  among them, as long as the history contains no \<^verbatim>\<open>leave_pool\<close> with the pool's id and
  its host's e-mail; and a creation that succeeds leaves the new pool with exactly one
  member, its host.
\<close>

theorem member_count_bounded:
  assumes "list_all seats_ok ops"
  shows "(\<forall>p\<in>set (pools (run L ops)).
            0 \<le> get_members_count (run L ops) (pid p)
          \<and> get_members_count (run L ops) (pid p) \<le> seats p
          \<and> (\<not> host_left ops (pid p) (host_email p) \<longrightarrow>
               is_user_member (run L ops) (pid p) (host_email p)
             \<and> 1 \<le> get_members_count (run L ops) (pid p)))
       \<and> (\<forall>p s'. add_pool (run L ops) p = Inr s' \<longrightarrow>
            get_members_count s' (pid p) = 1 \<and> is_user_member s' (pid p) (host_email p))"
proof -
  have 1: "\<forall>p\<in>set (pools (run L ops)).
            0 \<le> get_members_count (run L ops) (pid p)
          \<and> get_members_count (run L ops) (pid p) \<le> seats p"
    using capacity_ok_run[OF assms, of L] by (simp add: capacity_ok_iff get_members_count_def)
  have 3: "\<forall>p\<in>set (pools (run L ops)). \<not> host_left ops (pid p) (host_email p) \<longrightarrow>
               is_user_member (run L ops) (pid p) (host_email p)
             \<and> 1 \<le> get_members_count (run L ops) (pid p)"
    using host_kept_run[of ops L] member_count_pos unfolding host_kept_def by blast
  have R: "members_ref (run L ops)" using schema_ok_run[of L ops] by (simp add: schema_ok_def)
  have 2: "get_members_count s' (pid p) = 1 \<and> is_user_member s' (pid p) (host_email p)"
    if a: "add_pool (run L ops) p = Inr s'" for p s'
    using add_pool_count[OF R a, of "pid p"] add_pool_Inr(2)[OF R a]
    by (simp add: is_user_member_def)
  from 1 2 3 show ?thesis by blast
qed

theorem member_count_bounded_witness:
  "list_all seats_ok [Add_pool pool_early, Add_pool pool_a,
       Join_pool 32400000000 ''p1'' (u_name ravi) (u_email ravi)]
   \<and> \<not> host_left [Add_pool pool_early, Add_pool pool_a,
       Join_pool 32400000000 ''p1'' (u_name ravi) (u_email ravi)] ''p1'' (u_email asha)
   \<and> is_user_member (run sample_lib [Add_pool pool_early, Add_pool pool_a,
             Join_pool 32400000000 ''p1'' (u_name ravi) (u_email ravi)]) ''p1'' (u_email asha)
   \<and> 1 \<le> get_members_count (run sample_lib [Add_pool pool_early, Add_pool pool_a,
             Join_pool 32400000000 ''p1'' (u_name ravi) (u_email ravi)]) ''p1''
   \<and> get_members_count (run sample_lib [Add_pool pool_early, Add_pool pool_a,
             Join_pool 32400000000 ''p1'' (u_name ravi) (u_email ravi)]) ''p1'' \<le> 3
   \<and> get_members_count (snd (commit_pool (run sample_lib [Add_pool pool_early, Add_pool pool_a,
             Join_pool 32400000000 ''p1'' (u_name ravi) (u_email ravi)]) pool_b)) ''p2'' = 1"
proof -
  let ?ops = "[Add_pool pool_early, Add_pool pool_a,
       Join_pool 32400000000 ''p1'' (u_name ravi) (u_email ravi)]"
  have h: "list_all seats_ok ?ops"
    by (simp add: sample_defs SEATS_MIN_def SEATS_MAX_def)
  have p: "pool_a \<in> set (pools (run sample_lib ?ops))"
    by (simp add: run_two)
  have l: "\<not> host_left ?ops (pid pool_a) (host_email pool_a)"
    by (simp add: host_left_def)
  have "\<not> list_ex (\<lambda>q. pid q = pid pool_b) (pools (run sample_lib ?ops))"
    by (simp add: run_two) (simp add: sample_defs)
  then obtain s' where a: "add_pool (run sample_lib ?ops) pool_b = Inr s'"
    by (simp add: add_pool_def)
  from member_count_bounded[OF h, of sample_lib] p l a
  have "is_user_member (run sample_lib ?ops) (pid pool_a) (host_email pool_a)
      \<and> 1 \<le> get_members_count (run sample_lib ?ops) (pid pool_a)
      \<and> get_members_count (run sample_lib ?ops) (pid pool_a) \<le> seats pool_a
      \<and> get_members_count s' (pid pool_b) = 1"
    by blast
  moreover have "pid pool_a = ''p1''" "host_email pool_a = u_email asha" "seats pool_a = 3"
    "pid pool_b = ''p2''"
    by (simp_all add: sample_defs)
  ultimately show ?thesis using h l a by (simp add: commit_pool_def)
qed

subsection \<open>C2: joining a full pool\<close>

text \<open>
  C2 as stated (a non-member joining a pool whose count equals its capacity gets
  \<^verbatim>\<open>Pool is full\<close>) fails for a full pool whose ride time is already behind the clock and
  that has not been reaped yet: \<^verbatim>\<open>join_pool\<close> tests the time before the count.
  Pool \<^verbatim>\<open>p1\<close> has one seat, taken by its host, and leaves at 10:00; at 11:00 Ravi is told
  \<^verbatim>\<open>Ride time has passed\<close>.
\<close>

theorem join_full_pool_ride_passed:
  "map seats (pools (run sample_lib [Add_pool pool_single])) = [1]
   \<and> get_members_count (run sample_lib [Add_pool pool_single]) ''p1'' = 1
   \<and> \<not> is_user_member (run sample_lib [Add_pool pool_single]) ''p1'' (u_email ravi)
   \<and> join_pool sample_lib 39600000000 (run sample_lib [Add_pool pool_single])
         ''p1'' (u_name ravi) (u_email ravi)
       = ((False, ''Ride time has passed''), run sample_lib [Add_pool pool_single])"
  by (simp add: run_single)
     (simp add: sample_defs join_pool_def is_user_member_def get_members_count_def ride_passed_def)

text \<open>
  C2, amended: when the count of a stored pool equals its capacity and the e-mail is not
  a member, \<^verbatim>\<open>join_pool\<close> fails and leaves the tables as they were; the failure is
  \<^verbatim>\<open>Pool is full\<close>, unless the ride time is before the evaluation instant, when it is
  \<^verbatim>\<open>Ride time has passed\<close>. It is never \<^verbatim>\<open>Joined\<close>.
\<close>

theorem join_full_pool:
  assumes "find (\<lambda>p. pid p = i) (pools s) = Some row"
    and "get_members_count s i = seats row"
    and "\<not> is_user_member s i e"
  shows "join_pool L now s i n e =
           ((False, if ride_passed L now (when_iso row) then ''Ride time has passed''
                    else ''Pool is full''), s)"
  using assms by (simp add: join_pool_def)

theorem join_full_pool_witness:
  "find (\<lambda>p. pid p = ''p1'') (pools (run sample_lib [Add_pool pool_single])) = Some pool_single
   \<and> get_members_count (run sample_lib [Add_pool pool_single]) ''p1'' = seats pool_single
   \<and> \<not> is_user_member (run sample_lib [Add_pool pool_single]) ''p1'' (u_email ravi)
   \<and> join_pool sample_lib 32400000000 (run sample_lib [Add_pool pool_single])
         ''p1'' (u_name ravi) (u_email ravi)
       = ((False, ''Pool is full''), run sample_lib [Add_pool pool_single])"
proof -
  let ?s = "run sample_lib [Add_pool pool_single]"
  have f: "find (\<lambda>p. pid p = ''p1'') (pools ?s) = Some pool_single"
    by (simp add: run_single) (simp add: sample_defs)
  have c: "get_members_count ?s ''p1'' = seats pool_single"
    by (simp add: run_single) (simp add: sample_defs get_members_count_def)
  have m: "\<not> is_user_member ?s ''p1'' (u_email ravi)"
    by (simp add: run_single) (simp add: sample_defs is_user_member_def)
  have r: "\<not> ride_passed sample_lib 32400000000 (when_iso pool_single)"
    by (simp add: sample_defs ride_passed_def)
  from join_full_pool[OF f c m, of sample_lib 32400000000 "u_name ravi"] r f c m
  show ?thesis by simp
qed

subsection \<open>C3: joining twice\<close>

text \<open>
  C3: when a membership row for the pool and e-mail exists, \<^verbatim>\<open>join_pool\<close> answers
  \<^verbatim>\<open>(True, "Already joined")\<close> and changes nothing; so the call after a successful
  join, at any later instant and under any name, answers the same and changes nothing;
  \<^verbatim>\<open>join_pool\<close> keeps the rows of \<^verbatim>\<open>members\<close> distinct in (pool, e-mail); and in every
  history there is at most one row for a given pool and e-mail.
\<close>

theorem join_pool_idempotent:
  "(is_user_member s i e \<longrightarrow> join_pool L now s i n e = ((True, ''Already joined''), s))
   \<and> (fst (join_pool L now s i n e) = (True, ''Joined'') \<longrightarrow>
        join_pool L now' (snd (join_pool L now s i n e)) i n' e
          = ((True, ''Already joined''), snd (join_pool L now s i n e)))
   \<and> (members_unique s \<longrightarrow> members_unique (snd (join_pool L now s i n e)))
   \<and> length (filter (\<lambda>m. m_pool_id m = i \<and> m_email m = e) (members (run L ops))) \<le> 1"
proof -
  have 1: "is_user_member s i e \<longrightarrow> join_pool L now s i n e = ((True, ''Already joined''), s)"
    by (simp add: join_pool_def)
  have 2: "fst (join_pool L now s i n e) = (True, ''Joined'') \<longrightarrow>
        join_pool L now' (snd (join_pool L now s i n e)) i n' e
          = ((True, ''Already joined''), snd (join_pool L now s i n e))"
    by (auto simp: join_pool_def is_user_member_def split: option.splits if_splits)
  have 3: "members_unique s \<longrightarrow> members_unique (snd (join_pool L now s i n e))"
    using join_pool_state[of L now s i n e]
    by (auto simp: members_unique_def is_user_member_iff)
  have "distinct (map (\<lambda>m. (m_pool_id m, m_email m)) (members (run L ops)))"
    using schema_ok_run[of L ops] by (simp add: schema_ok_def members_unique_def)
  from distinct_key_filter[OF this, of "(i, e)"]
  have 4: "length (filter (\<lambda>m. m_pool_id m = i \<and> m_email m = e) (members (run L ops))) \<le> 1"
    by simp
  from 1 2 3 4 show ?thesis by blast
qed

theorem join_pool_idempotent_witness:
  "is_user_member (run sample_lib [Add_pool pool_a]) ''p1'' (u_email asha)
   \<and> join_pool sample_lib 32400000000 (run sample_lib [Add_pool pool_a])
        ''p1'' (u_name asha) (u_email asha)
       = ((True, ''Already joined''), run sample_lib [Add_pool pool_a])
   \<and> fst (join_pool sample_lib 32400000000 (run sample_lib [Add_pool pool_a])
        ''p1'' (u_name ravi) (u_email ravi)) = (True, ''Joined'')
   \<and> fst (join_pool sample_lib 36000000000
        (snd (join_pool sample_lib 32400000000 (run sample_lib [Add_pool pool_a])
           ''p1'' (u_name ravi) (u_email ravi)))
        ''p1'' ''R.'' (u_email ravi)) = (True, ''Already joined'')
   \<and> members_unique (run sample_lib [Add_pool pool_a])
   \<and> members_unique (snd (join_pool sample_lib 32400000000 (run sample_lib [Add_pool pool_a])
        ''p1'' (u_name ravi) (u_email ravi)))"
proof -
  let ?s = "run sample_lib [Add_pool pool_a]"
  have s: "?s = \<lparr>pools = [pool_a],
        members = [\<lparr>m_pool_id = ''p1'', m_name = ''Asha'', m_email = u_email asha\<rparr>],
        messages = []\<rparr>"
    by (simp add: table_defs sample_defs)
  have m: "is_user_member ?s ''p1'' (u_email asha)"
    by (simp add: s is_user_member_def)
  have j: "fst (join_pool sample_lib 32400000000 ?s ''p1'' (u_name ravi) (u_email ravi))
             = (True, ''Joined'')"
    by (simp add: s) (simp add: table_defs sample_defs)
  have u: "members_unique ?s"
    by (simp add: s members_unique_def)
  from join_pool_idempotent[of ?s "''p1''" "u_email asha" sample_lib 32400000000 "u_name asha"] m
  have 1: "join_pool sample_lib 32400000000 ?s ''p1'' (u_name asha) (u_email asha)
             = ((True, ''Already joined''), ?s)"
    by blast
  from join_pool_idempotent[of ?s "''p1''" "u_email ravi" sample_lib 32400000000 "u_name ravi"
      36000000000 "''R.''"] j u
  have 2: "join_pool sample_lib 36000000000
        (snd (join_pool sample_lib 32400000000 ?s ''p1'' (u_name ravi) (u_email ravi)))
        ''p1'' ''R.'' (u_email ravi)
       = ((True, ''Already joined''),
          snd (join_pool sample_lib 32400000000 ?s ''p1'' (u_name ravi) (u_email ravi)))"
    and 3: "members_unique (snd (join_pool sample_lib 32400000000 ?s
        ''p1'' (u_name ravi) (u_email ravi)))"
    by blast+
  from m 1 j 2 3 u show ?thesis by simp
qed

subsection \<open>C4: deleting a pool\<close>

text \<open>
  C4: with pool ids unique (the primary key), \<^verbatim>\<open>delete_pool\<close> returns true exactly when a
  stored pool has the given id and the requester's e-mail as host e-mail. Then the
  tables are those left by deleting the pool's membership rows first and its pool row
  second: no row of either table for that id remains and all other rows stay. Otherwise
  (another requester, or no such pool) it returns false and the tables are unchanged.
\<close>

theorem delete_pool_host_only:
  assumes "pool_ids_unique s"
  shows "fst (delete_pool s i e) = list_ex (\<lambda>p. pid p = i \<and> host_email p = e) (pools s)
       \<and> (fst (delete_pool s i e) \<longrightarrow>
            snd (delete_pool s i e) = delete_pool_row (delete_members_of s i) i
          \<and> members (snd (delete_pool s i e)) = filter (\<lambda>m. m_pool_id m \<noteq> i) (members s)
          \<and> pools (snd (delete_pool s i e)) = filter (\<lambda>p. pid p \<noteq> i) (pools s)
          \<and> messages (snd (delete_pool s i e)) = messages s)
       \<and> (\<not> fst (delete_pool s i e) \<longrightarrow> snd (delete_pool s i e) = s)"
proof -
  have d: "distinct (map pid (pools s))" using assms by (simp add: pool_ids_unique_def)
  have 1: "fst (delete_pool s i e) = list_ex (\<lambda>p. pid p = i \<and> host_email p = e) (pools s)"
  proof (cases "find (\<lambda>p. pid p = i) (pools s)")
    case None
    then have "\<forall>p\<in>set (pools s). pid p \<noteq> i" by (simp add: find_pid_None)
    with None show ?thesis by (auto simp: delete_pool_def list_ex_iff)
  next
    case (Some row)
    from find_pid_Some[OF Some] have r: "row \<in> set (pools s)" "pid row = i" by auto
    have u: "q = row" if "q \<in> set (pools s)" "pid q = i" for q
      using find_pid_unique[OF d that(1)] that(2) Some by simp
    have "list_ex (\<lambda>p. pid p = i \<and> host_email p = e) (pools s) = (host_email row = e)"
      unfolding list_ex_iff using r u by blast
    moreover have "fst (delete_pool s i e) = (host_email row = e)"
      by (simp add: delete_pool_def Some)
    ultimately show ?thesis by simp
  qed
  have 2: "fst (delete_pool s i e) \<longrightarrow> snd (delete_pool s i e) = delete_pool_row (delete_members_of s i) i"
    by (auto simp: delete_pool_def split: option.splits)
  have 3: "\<not> fst (delete_pool s i e) \<longrightarrow> snd (delete_pool s i e) = s"
    by (auto simp: delete_pool_def split: option.splits)
  from 1 2 3 show ?thesis by (simp add: delete_rows_simps)
qed

theorem delete_pool_host_only_witness:
  "pool_ids_unique (run sample_lib [Add_pool pool_early, Add_pool pool_a,
       Join_pool 32400000000 ''p1'' (u_name ravi) (u_email ravi)])
   \<and> fst (delete_pool (run sample_lib [Add_pool pool_early, Add_pool pool_a,
       Join_pool 32400000000 ''p1'' (u_name ravi) (u_email ravi)]) ''p1'' (u_email asha))
   \<and> map pid (pools (snd (delete_pool (run sample_lib [Add_pool pool_early, Add_pool pool_a,
       Join_pool 32400000000 ''p1'' (u_name ravi) (u_email ravi)]) ''p1'' (u_email asha)))) = [''p0'']
   \<and> map m_pool_id (members (snd (delete_pool (run sample_lib [Add_pool pool_early, Add_pool pool_a,
       Join_pool 32400000000 ''p1'' (u_name ravi) (u_email ravi)]) ''p1'' (u_email asha)))) = [''p0'']
   \<and> \<not> fst (delete_pool (run sample_lib [Add_pool pool_early, Add_pool pool_a,
       Join_pool 32400000000 ''p1'' (u_name ravi) (u_email ravi)]) ''p1'' (u_email ravi))
   \<and> snd (delete_pool (run sample_lib [Add_pool pool_early, Add_pool pool_a,
       Join_pool 32400000000 ''p1'' (u_name ravi) (u_email ravi)]) ''p1'' (u_email ravi))
       = run sample_lib [Add_pool pool_early, Add_pool pool_a,
           Join_pool 32400000000 ''p1'' (u_name ravi) (u_email ravi)]"
proof -
  let ?s = "run sample_lib [Add_pool pool_early, Add_pool pool_a,
       Join_pool 32400000000 ''p1'' (u_name ravi) (u_email ravi)]"
  have u: "pool_ids_unique ?s"
    by (simp add: run_two pool_ids_unique_def) (simp add: sample_defs)
  have a: "list_ex (\<lambda>p. pid p = ''p1'' \<and> host_email p = u_email asha) (pools ?s)"
    by (simp add: run_two) (simp add: sample_defs)
  have r: "\<not> list_ex (\<lambda>p. pid p = ''p1'' \<and> host_email p = u_email ravi) (pools ?s)"
    by (simp add: run_two) (simp add: sample_defs)
  from delete_pool_host_only[OF u, of "''p1''" "u_email asha"] a
  have 1: "fst (delete_pool ?s ''p1'' (u_email asha))"
    and 2: "members (snd (delete_pool ?s ''p1'' (u_email asha)))
              = filter (\<lambda>m. m_pool_id m \<noteq> ''p1'') (members ?s)"
    and 3: "pools (snd (delete_pool ?s ''p1'' (u_email asha)))
              = filter (\<lambda>p. pid p \<noteq> ''p1'') (pools ?s)"
    by blast+
  from delete_pool_host_only[OF u, of "''p1''" "u_email ravi"] r
  have 4: "\<not> fst (delete_pool ?s ''p1'' (u_email ravi))"
    and 5: "snd (delete_pool ?s ''p1'' (u_email ravi)) = ?s"
    by blast+
  have m2: "map m_pool_id (members (snd (delete_pool ?s ''p1'' (u_email asha)))) = [''p0'']"
    unfolding 2 by (simp add: run_two)
  have p3: "map pid (pools (snd (delete_pool ?s ''p1'' (u_email asha)))) = [''p0'']"
    unfolding 3 by (simp add: run_two) (simp add: sample_defs)
  from u 1 m2 p3 4 5 show ?thesis by simp
qed

subsection \<open>C5: reaping expired pools\<close>

text \<open>
  C5: with pool ids unique, \<^verbatim>\<open>cleanup_expired_pools\<close> keeps, in table order, exactly the
  pools whose ride time is not strictly before the evaluation instant; a pool is removed
  if and only if its ride time is strictly before it, and then no membership row of that
  pool remains; the membership rows of every pool that stays are the same as before; a
  second call at the same instant changes nothing, and neither does a call on the empty
  database.
\<close>

theorem cleanup_expired_pools_spec:
  assumes "pool_ids_unique s"
  shows "pools (cleanup_expired_pools L now s)
           = filter (\<lambda>p. \<not> ride_passed L now (when_iso p)) (pools s)
       \<and> (\<forall>p\<in>set (pools s).
            (p \<in> set (pools (cleanup_expired_pools L now s))) = (\<not> ride_passed L now (when_iso p)))
       \<and> (\<forall>p\<in>set (pools s). ride_passed L now (when_iso p) \<longrightarrow>
            filter (\<lambda>m. m_pool_id m = pid p) (members (cleanup_expired_pools L now s)) = [])
       \<and> (\<forall>p\<in>set (pools s). \<not> ride_passed L now (when_iso p) \<longrightarrow>
            filter (\<lambda>m. m_pool_id m = pid p) (members (cleanup_expired_pools L now s))
              = filter (\<lambda>m. m_pool_id m = pid p) (members s))
       \<and> cleanup_expired_pools L now (cleanup_expired_pools L now s) = cleanup_expired_pools L now s
       \<and> cleanup_expired_pools L now empty_store = empty_store"
proof -
  let ?t = "cleanup_expired_pools L now s"
  have inj: "inj_on pid (set (pools s))"
    using assms by (simp add: pool_ids_unique_def distinct_map)
  have P: "pools ?t = filter (\<lambda>p. \<not> ride_passed L now (when_iso p)) (pools s)"
    by (rule cleanup_pools[OF assms])
  have A: "\<forall>p\<in>set (pools s). (p \<in> set (pools ?t)) = (\<not> ride_passed L now (when_iso p))"
    by (simp add: P)
  have B: "filter (\<lambda>m. m_pool_id m = pid p) (members ?t) = []"
    if "p \<in> set (pools s)" "ride_passed L now (when_iso p)" for p
    using that by (auto simp: cleanup_members filter_empty_conv list_ex_iff)
  have C: "filter (\<lambda>m. m_pool_id m = pid p) (members ?t) = filter (\<lambda>m. m_pool_id m = pid p) (members s)"
    if p: "p \<in> set (pools s)" and np: "\<not> ride_passed L now (when_iso p)" for p
  proof -
    have "\<not> list_ex (\<lambda>q. pid q = pid p \<and> ride_passed L now (when_iso q)) (pools s)"
      using p np inj by (auto simp: list_ex_iff dest: inj_onD)
    then show ?thesis
      unfolding cleanup_members by (auto intro: filter_cong)
  qed
  have E: "cleanup_expired_pools L now empty_store = empty_store"
    by (simp add: cleanup_expired_pools_def empty_store_def)
  from P A B C cleanup_idem[OF assms] E show ?thesis by blast
qed

theorem cleanup_expired_pools_spec_witness:
  "pool_ids_unique (run sample_lib [Add_pool pool_early, Add_pool pool_a,
       Join_pool 32400000000 ''p1'' (u_name ravi) (u_email ravi)])
   \<and> map pid (pools (cleanup_expired_pools sample_lib 34200000000
        (run sample_lib [Add_pool pool_early, Add_pool pool_a,
           Join_pool 32400000000 ''p1'' (u_name ravi) (u_email ravi)]))) = [''p1'']
   \<and> filter (\<lambda>m. m_pool_id m = ''p0'') (members (cleanup_expired_pools sample_lib 34200000000
        (run sample_lib [Add_pool pool_early, Add_pool pool_a,
           Join_pool 32400000000 ''p1'' (u_name ravi) (u_email ravi)]))) = []
   \<and> map m_name (filter (\<lambda>m. m_pool_id m = ''p1'') (members (cleanup_expired_pools sample_lib
        34200000000 (run sample_lib [Add_pool pool_early, Add_pool pool_a,
           Join_pool 32400000000 ''p1'' (u_name ravi) (u_email ravi)])))) = [''Asha'', ''Ravi'']"
proof -
  let ?s = "run sample_lib [Add_pool pool_early, Add_pool pool_a,
       Join_pool 32400000000 ''p1'' (u_name ravi) (u_email ravi)]"
  let ?t = "cleanup_expired_pools sample_lib 34200000000 ?s"
  have u: "pool_ids_unique ?s"
    by (simp add: run_two pool_ids_unique_def) (simp add: sample_defs)
  have e: "pool_early \<in> set (pools ?s)" and a: "pool_a \<in> set (pools ?s)"
    by (simp_all add: run_two)
  have re: "ride_passed sample_lib 34200000000 (when_iso pool_early)"
    and ra: "\<not> ride_passed sample_lib 34200000000 (when_iso pool_a)"
    by (simp_all add: sample_defs ride_passed_def)
  note T = cleanup_expired_pools_spec[OF u, of sample_lib 34200000000]
  from T have P: "pools ?t = filter (\<lambda>p. \<not> ride_passed sample_lib 34200000000 (when_iso p)) (pools ?s)"
    by (rule conjunct1)
  from T e re have B: "filter (\<lambda>m. m_pool_id m = pid pool_early) (members ?t) = []"
    by blast
  from T a ra have C: "filter (\<lambda>m. m_pool_id m = pid pool_a) (members ?t)
      = filter (\<lambda>m. m_pool_id m = pid pool_a) (members ?s)"
    by blast
  have P': "map pid (pools ?t) = [''p1'']"
    unfolding P by (simp add: run_two re ra) (simp add: sample_defs)
  have ie: "pid pool_early = ''p0''" and ia: "pid pool_a = ''p1''"
    by (simp_all add: sample_defs)
  have C': "map m_name (filter (\<lambda>m. m_pool_id m = ''p1'') (members ?t)) = [''Asha'', ''Ravi'']"
    unfolding C[unfolded ia] by (simp add: run_two)
  from u P' B[unfolded ie] C' show ?thesis by simp
qed

subsection \<open>C6: the spam guard's window\<close>

text \<open>
  C6, for stored creation times that are not after the evaluation instant (they were
  written from the clock at creation): \<^verbatim>\<open>can_host_create\<close> is false exactly when a pool
  of that host has a readable \<^verbatim>\<open>created_at\<close> in the 15 minutes that end at the
  evaluation instant. After a creation by that host, recorded at instant \<open>c\<close> and the
  host's most recent one, it is true exactly when the evaluation instant is later than
  \<open>c\<close> plus 15 minutes: false right after the creation, true again once that bound is
  exceeded.
\<close>

theorem can_host_create_window:
  assumes "\<forall>p\<in>set (pools s). host_email p = email \<longrightarrow>
             (\<forall>c. fromisoformat L (created_at p) = Some c \<longrightarrow> c \<le> now)"
  shows "can_host_create L now s email =
           (\<not> (\<exists>p\<in>set (pools s). host_email p = email \<and>
                 (\<exists>c. fromisoformat L (created_at p) = Some c \<and>
                      now - timedelta_minutes COOLDOWN_MINUTES \<le> c \<and> c \<le> now)))
       \<and> (\<forall>p s' c. add_pool s p = Inr s' \<and> host_email p = email \<and>
              fromisoformat L (created_at p) = Some c \<and>
              (\<forall>q\<in>set (pools s). host_email q = email \<longrightarrow>
                 (\<forall>c'. fromisoformat L (created_at q) = Some c' \<longrightarrow> c' \<le> c))
            \<longrightarrow> can_host_create L now s' email = (c + timedelta_minutes COOLDOWN_MINUTES < now))"
proof -
  have 1: "can_host_create L now s email =
           (\<not> (\<exists>p\<in>set (pools s). host_email p = email \<and>
                 (\<exists>c. fromisoformat L (created_at p) = Some c \<and>
                      now - timedelta_minutes COOLDOWN_MINUTES \<le> c \<and> c \<le> now)))"
    unfolding can_host_create_iff using assms by (meson linorder_not_less)
  have 2: "can_host_create L now s' email = (c + timedelta_minutes COOLDOWN_MINUTES < now)"
    if a: "add_pool s p = Inr s'" and h: "host_email p = email"
      and c: "fromisoformat L (created_at p) = Some c"
      and r: "\<forall>q\<in>set (pools s). host_email q = email \<longrightarrow>
                 (\<forall>c'. fromisoformat L (created_at q) = Some c' \<longrightarrow> c' \<le> c)"
    for p s' c
  proof
    assume "can_host_create L now s' email"
    then show "c + timedelta_minutes COOLDOWN_MINUTES < now"
      unfolding can_host_create_iff add_pool_pools[OF a] using h c by auto
  next
    assume l: "c + timedelta_minutes COOLDOWN_MINUTES < now"
    show "can_host_create L now s' email"
      unfolding can_host_create_iff add_pool_pools[OF a]
    proof (intro ballI impI allI)
      fix q t assume q: "q \<in> set (pools s @ [p])" "host_email q = email"
        "fromisoformat L (created_at q) = Some t"
      then have "t \<le> c" using r c by auto
      with l show "t < now - timedelta_minutes COOLDOWN_MINUTES" by linarith
    qed
  qed
  from 1 2 show ?thesis by blast
qed

theorem can_host_create_window_witness:
  "fromisoformat sample_lib (created_at pool_a) = Some 32400000000
   \<and> (32400000000::int) \<le> 33000000000
   \<and> \<not> can_host_create sample_lib 33000000000 (run sample_lib [Add_pool pool_a]) (u_email asha)
   \<and> add_pool empty_store pool_a = Inr (run sample_lib [Add_pool pool_a])
   \<and> \<not> can_host_create sample_lib 33300000000 (run sample_lib [Add_pool pool_a]) (u_email asha)
   \<and> can_host_create sample_lib 33300000001 (run sample_lib [Add_pool pool_a]) (u_email asha)"
proof -
  let ?s = "run sample_lib [Add_pool pool_a]"
  have s: "?s = \<lparr>pools = [pool_a],
        members = [\<lparr>m_pool_id = ''p1'', m_name = ''Asha'', m_email = u_email asha\<rparr>],
        messages = []\<rparr>"
    by (simp add: table_defs sample_defs)
  have c: "fromisoformat sample_lib (created_at pool_a) = Some 32400000000"
    by (simp add: sample_defs)
  have h: "host_email pool_a = u_email asha"
    by (simp add: sample_defs)
  have H: "\<forall>p\<in>set (pools ?s). host_email p = u_email asha \<longrightarrow>
             (\<forall>c. fromisoformat sample_lib (created_at p) = Some c \<longrightarrow> c \<le> 33000000000)"
    by (simp add: s c)
  have E: "\<forall>p\<in>set (pools empty_store). host_email p = u_email asha \<longrightarrow>
             (\<forall>c. fromisoformat sample_lib (created_at p) = Some c \<longrightarrow> c \<le> n)" for n
    by (simp add: empty_store_def)
  have a: "add_pool empty_store pool_a = Inr ?s"
    by (simp add: table_defs)
  have w: "\<exists>p\<in>set (pools ?s). host_email p = u_email asha \<and>
             (\<exists>c. fromisoformat sample_lib (created_at p) = Some c \<and>
                  33000000000 - timedelta_minutes COOLDOWN_MINUTES \<le> c \<and> c \<le> 33000000000)"
    by (simp add: s c h timedelta_minutes_def COOLDOWN_MINUTES_def)
  from can_host_create_window[OF H] w
  have 1: "\<not> can_host_create sample_lib 33000000000 ?s (u_email asha)"
    by blast
  have r: "\<forall>q\<in>set (pools empty_store). host_email q = u_email asha \<longrightarrow>
             (\<forall>c'. fromisoformat sample_lib (created_at q) = Some c' \<longrightarrow> c' \<le> 32400000000)"
    by (simp add: empty_store_def)
  from can_host_create_window[OF E, of 33300000000] a h c r
  have "can_host_create sample_lib 33300000000 ?s (u_email asha)
          = (32400000000 + timedelta_minutes COOLDOWN_MINUTES < 33300000000)"
    by blast
  then have 2: "\<not> can_host_create sample_lib 33300000000 ?s (u_email asha)"
    by (simp add: timedelta_minutes_def COOLDOWN_MINUTES_def)
  from can_host_create_window[OF E, of 33300000001] a h c r
  have "can_host_create sample_lib 33300000001 ?s (u_email asha)
          = (32400000000 + timedelta_minutes COOLDOWN_MINUTES < 33300000001)"
    by blast
  then have 3: "can_host_create sample_lib 33300000001 ?s (u_email asha)"
    by (simp add: timedelta_minutes_def COOLDOWN_MINUTES_def)
  from c 1 a 2 3 show ?thesis by simp
qed

subsection \<open>C7: the time check of pool creation\<close>

text \<open>
  C7 as stated fails at its boundary: the handler rejects \<^verbatim>\<open>when_dt < datetime.now()\<close>, so
  a departure time equal to the evaluation instant passes. At 10:00, a form asking for a
  ride at 10:00 creates a pool, in both variants.
\<close>

theorem create_pool_at_now_accepted:
  "when_dt (sample_form 36000000000) = 36000000000
   \<and> fst (create_pool_ui_preset sample_lib 36000000000 asha ''JBS'' (sample_form 36000000000)
        empty_store) = St_success ''Pool created!''
   \<and> map when_iso (pools (snd (create_pool_ui_preset sample_lib 36000000000 asha ''JBS''
        (sample_form 36000000000) empty_store))) = [''2030-01-01T10:00:00'']
   \<and> fst (create_pool_ui sample_lib 36000000000 asha (Some sample_dest) (sample_form 36000000000)
        empty_store) = St_success ''Pool created!''
   \<and> map when_iso (pools (snd (create_pool_ui sample_lib 36000000000 asha (Some sample_dest)
        (sample_form 36000000000) empty_store))) = [''2030-01-01T10:00:00'']"
  by code_simp

text \<open>
  C7, amended: the presets variant answers \<^verbatim>\<open>Please pick a future time.\<close> exactly when the
  departure time is strictly before the evaluation instant; the Places variant does so
  exactly when, in addition, a destination was selected (without one it reports the
  missing destination first). A request with a departure time strictly before the
  evaluation instant writes nothing, in either variant.
\<close>

theorem create_pool_time_check:
  "(fst (create_pool_ui_preset L now u dest_name f s) = St_error ''Please pick a future time.'')
      = (when_dt f < now)
   \<and> (fst (create_pool_ui L now u dst f s) = St_error ''Please pick a future time.'')
      = (dst \<noteq> None \<and> when_dt f < now)
   \<and> (when_dt f < now \<longrightarrow>
        snd (create_pool_ui_preset L now u dest_name f s) = s
      \<and> snd (create_pool_ui L now u dst f s) = s)"
proof -
  have c: "fst (commit_pool s p) \<noteq> St_error m" "fst (commit_pool s p) \<noteq> St_error m" for p m
    by (auto simp: commit_pool_def split: sum.splits)
  have 1: "(fst (create_pool_ui_preset L now u dest_name f s) = St_error ''Please pick a future time.'')
      = (when_dt f < now)"
    by (simp add: create_pool_ui_preset_def Let_def c)
  have 2: "(fst (create_pool_ui L now u dst f s) = St_error ''Please pick a future time.'')
      = (dst \<noteq> None \<and> when_dt f < now)"
    by (cases dst) (simp_all add: create_pool_ui_def c)
  have 3: "when_dt f < now \<longrightarrow> snd (create_pool_ui_preset L now u dest_name f s) = s
      \<and> snd (create_pool_ui L now u dst f s) = s"
    by (cases dst) (simp_all add: create_pool_ui_def create_pool_ui_preset_def Let_def)
  from 1 2 3 show ?thesis by blast
qed

theorem create_pool_time_check_witness:
  "when_dt (sample_form 32400000000) < 36000000000
   \<and> create_pool_ui_preset sample_lib 36000000000 asha ''JBS'' (sample_form 32400000000)
        (run sample_lib [Add_pool pool_b])
       = (St_error ''Please pick a future time.'', run sample_lib [Add_pool pool_b])
   \<and> create_pool_ui sample_lib 36000000000 asha (Some sample_dest) (sample_form 32400000000)
        (run sample_lib [Add_pool pool_b])
       = (St_error ''Please pick a future time.'', run sample_lib [Add_pool pool_b])"
proof -
  let ?s = "run sample_lib [Add_pool pool_b]"
  have l: "when_dt (sample_form 32400000000) < 36000000000"
    by (simp add: sample_form_def)
  note T = create_pool_time_check[of sample_lib 36000000000 asha "''JBS''"
      "sample_form 32400000000" ?s "Some sample_dest"]
  from T l have
    "fst (create_pool_ui_preset sample_lib 36000000000 asha ''JBS'' (sample_form 32400000000) ?s)
       = St_error ''Please pick a future time.''"
    "snd (create_pool_ui_preset sample_lib 36000000000 asha ''JBS'' (sample_form 32400000000) ?s) = ?s"
    "fst (create_pool_ui sample_lib 36000000000 asha (Some sample_dest) (sample_form 32400000000) ?s)
       = St_error ''Please pick a future time.''"
    "snd (create_pool_ui sample_lib 36000000000 asha (Some sample_dest) (sample_form 32400000000) ?s) = ?s"
    by blast+
  with l show ?thesis by (simp add: prod_eq_iff)
qed

subsection \<open>C8: the pool of a share link\<close>

text \<open>
  C8 does not hold of either variant: the block that brings the linked pool to the top
  runs before the final sort, and the sort orders the whole list again. With pool
  \<^verbatim>\<open>p1\<close> leaving at 10:00 and pool \<^verbatim>\<open>p2\<close> at 11:00, a link to \<^verbatim>\<open>p2\<close> and no filter, the
  block yields \<^verbatim>\<open>p2, p1\<close> and the rendered list is \<^verbatim>\<open>p1, p2\<close>.
\<close>

theorem focus_pool_not_first:
  "map (\<lambda>q. pid (fst q))
      (bring_to_top (Some ''p2'')
         (list_future_pools sample_lib 32400000000 (run sample_lib [Add_pool pool_a, Add_pool pool_b])))
     = [''p2'', ''p1'']
   \<and> map (\<lambda>q. pid (fst q))
       (fst (pools_list_ui_preset sample_lib 32400000000 (Some ''p2'') None
               ''All destinations'' ''Any pickup''
               (run sample_lib [Add_pool pool_a, Add_pool pool_b])))
     = [''p1'', ''p2'']
   \<and> map (\<lambda>q. pid (fst q))
       (fst (pools_list_ui sample_lib 32400000000 (Some ''p2'') None (None :: (pool \<Rightarrow> nat) option)
               (run sample_lib [Add_pool pool_a, Add_pool pool_b])))
     = [''p1'', ''p2'']"
  by code_simp

subsection \<open>C9: the messages a chat shows\<close>

text \<open>
  C9 does not hold when a pool has more messages than the limit: the query sorts
  ascending and then cuts, so it returns the oldest messages. Of three messages sent at
  09:00, 10:00 and 11:00, a limit of two returns the first two, not the last two.
\<close>

theorem list_messages_returns_oldest:
  "map msg_id (list_messages chat_store ''p1'' 3) = [''m1'', ''m2'', ''m3'']
   \<and> map msg_id (list_messages chat_store ''p1'' 2) = [''m1'', ''m2'']"
  by code_simp

subsection \<open>C10: the spam guard when the database fails\<close>

text \<open>
  C10 as stated (whenever the store fails inside \<^verbatim>\<open>can_host_create\<close>, backend
  unavailable included, the function returns true) fails on the SQLite branch when the
  database cannot be opened: \<^verbatim>\<open>get_conn()\<close> and \<^verbatim>\<open>con.cursor()\<close> run before the
  \<^verbatim>\<open>try\<close>, so the function raises instead of returning.
\<close>

theorem can_host_create_connect_failure_raises:
  "can_host_create_backend sample_lib 33000000000
      (SQLite (Some (Connect_fault OperationalError)) empty_store) (u_email asha)
     = Inl OperationalError"
  by (simp add: can_host_create_backend_def)

text \<open>
  C10, amended: \<^verbatim>\<open>can_host_create\<close> returns true whenever its query raises, which is any
  exception of the request chain on the Supabase branch and an exception of
  \<^verbatim>\<open>cur.execute\<close> or \<^verbatim>\<open>fetchall\<close> on the SQLite branch. On the SQLite branch an
  exception while opening the connection or the cursor leaves the function as that
  exception; with no failure the function returns the spam guard's verdict.
\<close>

theorem can_host_create_fails_open:
  "can_host_create_backend L now (Supabase (Inl e)) email = Inr True
   \<and> can_host_create_backend L now (SQLite (Some (Execute_fault e)) s) email = Inr True
   \<and> can_host_create_backend L now (SQLite (Some (Connect_fault e)) s) email = Inl e
   \<and> can_host_create_backend L now (SQLite None s) email = Inr (can_host_create L now s email)"
  by (simp add: can_host_create_backend_def)

theorem can_host_create_fails_open_witness:
  "can_host_create_backend sample_lib 33000000000 (Supabase (Inl OperationalError)) (u_email asha)
     = Inr True
   \<and> can_host_create_backend sample_lib 33000000000
       (SQLite (Some (Execute_fault OperationalError)) (run sample_lib [Add_pool pool_a]))
       (u_email asha) = Inr True
   \<and> can_host_create_backend sample_lib 33000000000
       (SQLite None (run sample_lib [Add_pool pool_a])) (u_email asha)
     = Inr (can_host_create sample_lib 33000000000 (run sample_lib [Add_pool pool_a]) (u_email asha))"
  using can_host_create_fails_open[of sample_lib 33000000000 OperationalError "u_email asha"
      "run sample_lib [Add_pool pool_a]"]
  by simp

end
